theory Spec2Isabelle
  imports Complex_Main
begin

section \<open>Conventions of the embedding\<close>

text \<open>
  The development embeds the disaggregation matrix engine of
  \<^verbatim>\<open>openquake/hazardlib/calc/disagg.py\<close>.  NumPy's float64 values are read as
  real numbers, so every equation below is an equation of exact arithmetic.  Python
  exceptions are values of the type \<open>error\<close>; a function that can raise returns
  \<open>error + 'a\<close> with \<open>Inl\<close> for the exception.
\<close>

datatype error = FarAwayRupture | AssertionError | IndexError | ValueError
  | ZeroDivisionError | KeyError

subsection \<open>NumPy primitives on one-dimensional arrays\<close>

text \<open>
  \<^verbatim>\<open>numpy.searchsorted(a, v)\<close> (side \<^verbatim>\<open>'left'\<close>) on an ascending array
  \<open>a\<close>: the number of leading elements strictly below \<open>v\<close>.
\<close>

definition searchsorted :: "real list \<Rightarrow> real \<Rightarrow> nat" where
  "searchsorted a v = length (takeWhile (\<lambda>x. x < v) a)"

text \<open>
  \<^verbatim>\<open>numpy.digitize(x, bins)\<close> on monotonically increasing \<open>bins\<close>: the index
  \<open>i\<close> with \<open>bins[i-1] <= x < bins[i]\<close>, that is the number of leading edges
  that are at most \<open>x\<close>.
\<close>

definition digitize :: "real \<Rightarrow> real list \<Rightarrow> nat" where
  "digitize x bins = length (takeWhile (\<lambda>b. b \<le> x) bins)"

text \<open>Python's \<^verbatim>\<open>min\<close> and \<^verbatim>\<open>max\<close> of a sequence; both raise on an empty one.\<close>

fun py_min :: "real list \<Rightarrow> error + real" where
  "py_min [] = Inl ValueError"
| "py_min (x # xs) = Inr (fold min xs x)"

fun py_max :: "real list \<Rightarrow> error + real" where
  "py_max [] = Inl ValueError"
| "py_max (x # xs) = Inr (fold max xs x)"

section \<open>Epsilon band cache: \<^verbatim>\<open>get_eps4\<close>\<close>

text \<open>
  \<^verbatim>\<open>scipy.stats.truncnorm(-truncation_level, truncation_level).cdf\<close> is not
  part of the sources; it is the parameter \<open>tn_cdf\<close>, applied to the truncation level
  and the point.
\<close>

definition get_eps4 ::
  "(real \<Rightarrow> real \<Rightarrow> real) \<Rightarrow> real list \<Rightarrow> real
     \<Rightarrow> error + (real \<times> real \<times> real list \<times> real list)" where
  "get_eps4 tn_cdf eps_edges truncation_level =
     (let eps_bands = map2 (\<lambda>hi lo. tn_cdf truncation_level hi - tn_cdf truncation_level lo)
                        (tl eps_edges) (butlast eps_edges);
          elist = [0..<length eps_bands];
          eps_cum = map (\<lambda>e. sum_list (drop e eps_bands)) elist @ [0]
      in case py_min eps_edges of
           Inl err \<Rightarrow> Inl err
         | Inr mn \<Rightarrow> (case py_max eps_edges of
             Inl err \<Rightarrow> Inl err
           | Inr mx \<Rightarrow> Inr (mn, mx, eps_bands, eps_cum)))"

section \<open>Splitting a probability of exceedance by epsilon: \<^verbatim>\<open>_disagg_eps\<close>\<close>

text \<open>
  One pass of the loop over \<^verbatim>\<open>enumerate(eps_bands)\<close>: column \<open>e\<close> of \<open>res\<close>
  is set to \<open>eps_band\<close> in the rows with \<open>bins <= e\<close>, then to
  \<open>survival - cum_bands[bins]\<close> in the rows with \<open>bins == e + 1\<close>.
\<close>

definition disagg_eps_col ::
  "real list \<Rightarrow> nat list \<Rightarrow> real list \<Rightarrow> nat \<times> real \<Rightarrow> real list list \<Rightarrow> real list list" where
  "disagg_eps_col survival bins cum_bands = (\<lambda>(e, eps_band) res.
     map (\<lambda>u. let row = res ! u;
                  left = (if bins ! u \<le> e then row[e := eps_band] else row)
              in if bins ! u = e + 1
                 then left[e := survival ! u - cum_bands ! (bins ! u)]
                 else left)
         [0..<length res])"

definition disagg_eps ::
  "real list \<Rightarrow> nat list \<Rightarrow> real list \<Rightarrow> real list \<Rightarrow> real list list" where
  "disagg_eps survival bins eps_bands cum_bands =
     fold (disagg_eps_col survival bins cum_bands) (enumerate 0 eps_bands)
       (replicate (length bins) (replicate (length eps_bands) 0))"

section \<open>Magnitude bin edges: the first block of \<^verbatim>\<open>_build_bin_edges\<close>\<close>



section \<open>Magnitude bin of a rupture: \<^verbatim>\<open>Disaggregator.__init__\<close>\<close>

text \<open>
  One entry of \<^verbatim>\<open>fullmagi\<close>: \<^verbatim>\<open>searchsorted(bin_edges[0], mag) - 1\<close>, with the
  value \<open>-1\<close> replaced by \<open>0\<close>.
\<close>

definition fullmagi_of :: "real list \<Rightarrow> real \<Rightarrow> int" where
  "fullmagi_of mag_edges m =
     (let i = int (searchsorted mag_edges m) - 1 in if i = - 1 then 0 else i)"


section \<open>Dense arrays\<close>

text \<open>
  A NumPy array of floats is its shape together with its elements, read at a list of
  indices, one per axis.  Only the elements at indices inside the shape are meaningful.
\<close>

record ndarray =
  shp :: "nat list"
  elt :: "nat list \<Rightarrow> real"

definition np_zeros :: "nat list \<Rightarrow> ndarray" where
  "np_zeros s = \<lparr>shp = s, elt = (\<lambda>ix. 0)\<rparr>"

definition np_ones :: "nat list \<Rightarrow> ndarray" where
  "np_ones s = \<lparr>shp = s, elt = (\<lambda>ix. 1)\<rparr>"

text \<open>The sub-array \<^verbatim>\<open>a[u]\<close>, as met when iterating over the first axis.\<close>

definition nd_row :: "ndarray \<Rightarrow> nat \<Rightarrow> ndarray" where
  "nd_row a u = \<lparr>shp = tl (shp a), elt = (\<lambda>ix. elt a (u # ix))\<rparr>"

text \<open>
  Indexing an axis of length \<open>n\<close> with a Python integer: a negative index counts from the
  end, and an index outside \<open>-n .. n-1\<close> raises \<^verbatim>\<open>IndexError\<close> (here \<open>None\<close>).
\<close>

definition py_index :: "nat \<Rightarrow> int \<Rightarrow> nat option" where
  "py_index n i =
     (if 0 \<le> i \<and> i < int n then Some (nat i)
      else if - int n \<le> i \<and> i < 0 then Some (nat (int n + i))
      else None)"

text \<open>
  Broadcasting the operand of an in-place operation of the same rank: every axis of the
  operand has the length of the target's axis or the length one, and an axis of length
  one is read at index 0.
\<close>

definition broadcastable :: "nat list \<Rightarrow> nat list \<Rightarrow> bool" where
  "broadcastable sb sa = list_all2 (\<lambda>b a. b = a \<or> b = 1) sb sa"

definition bcast :: "nat list \<Rightarrow> nat list \<Rightarrow> nat list" where
  "bcast sb ix = map2 (\<lambda>b i. if b = 1 then 0 else i) sb ix"

text \<open>A loop whose body can raise: the first exception ends it.\<close>

fun fold_err :: "('a \<Rightarrow> 's \<Rightarrow> error + 's) \<Rightarrow> 'a list \<Rightarrow> 's \<Rightarrow> error + 's" where
  "fold_err f [] s = Inr s"
| "fold_err f (x # xs) s = (case f x s of Inl err \<Rightarrow> Inl err | Inr s' \<Rightarrow> fold_err f xs s')"

fun map_err :: "('a \<Rightarrow> error + 'b) \<Rightarrow> 'a list \<Rightarrow> error + 'b list" where
  "map_err f [] = Inr []"
| "map_err f (x # xs) =
     (case f x of
        Inl err \<Rightarrow> Inl err
      | Inr y \<Rightarrow> (case map_err f xs of Inl err \<Rightarrow> Inl err | Inr ys \<Rightarrow> Inr (y # ys)))"

section \<open>Matrix accumulator: \<^verbatim>\<open>_digitize_lons\<close> and \<^verbatim>\<open>_build_disagg_matrix\<close>\<close>

record BinData =
  dists :: "real list"
  lons :: "real list"
  lats :: "real list"
  pnes :: ndarray

text \<open>
  \<^verbatim>\<open>cross_idl\<close> and \<^verbatim>\<open>get_longitudinal_extent\<close> of
  \<^verbatim>\<open>openquake.hazardlib.geo.utils\<close> are not part of the sources; they are parameters.
  When the edges cross the date line, the loop over \<^verbatim>\<open>i_lon\<close> overwrites the index of
  every longitude lying in the bin \<open>i_lon\<close>; it is written here for one longitude.
  \<^verbatim>\<open>lon_bins[0]\<close> raises on an empty array of edges.
\<close>

definition digitize_lons ::
  "(real \<Rightarrow> real \<Rightarrow> bool) \<Rightarrow> (real \<Rightarrow> real \<Rightarrow> real) \<Rightarrow> real list \<Rightarrow> real list
     \<Rightarrow> error + int list" where
  "digitize_lons cross_idl get_longitudinal_extent lons_arr lon_bins =
     (if lon_bins = [] then Inl IndexError
      else if cross_idl (hd lon_bins) (last lon_bins) then
        Inr (map (\<lambda>lon.
               fold (\<lambda>i_lon idx.
                       if 0 < get_longitudinal_extent lon (lon_bins ! (i_lon + 1)) \<and>
                          (i_lon = 0 \<or> 0 \<le> get_longitudinal_extent (lon_bins ! i_lon) lon)
                       then int i_lon else idx)
                    [0..<length lon_bins - 1] 0)
             lons_arr)
      else Inr (map (\<lambda>lon. int (digitize lon lon_bins) - 1) lons_arr))"

text \<open>\<^verbatim>\<open>idx[idx == dim] = dim - 1\<close>, for one entry.\<close>

definition fold_last_bin :: "int \<Rightarrow> int \<Rightarrow> int" where
  "fold_last_bin d i = (if i = d then d - 1 else i)"

text \<open>
  The three index arrays of \<^verbatim>\<open>_build_disagg_matrix\<close> after the correction of the last
  bin, zipped: one triple \<open>(i_dist, i_lon, i_lat)\<close> per rupture.
\<close>

definition rupture_cells ::
  "(real \<Rightarrow> real \<Rightarrow> bool) \<Rightarrow> (real \<Rightarrow> real \<Rightarrow> real) \<Rightarrow> BinData
     \<Rightarrow> real list \<times> real list \<times> real list \<times> real list \<Rightarrow> error + (int \<times> int \<times> int) list" where
  "rupture_cells cross_idl get_longitudinal_extent bdata bins =
     (case bins of (dist_bins, lon_bins, lat_bins, eps_bins) \<Rightarrow>
        let dim1 = int (length dist_bins) - 1;
            dim2 = int (length lon_bins) - 1;
            dim3 = int (length lat_bins) - 1;
            dists_idx = map (\<lambda>d. int (digitize d dist_bins) - 1) (dists bdata)
        in case digitize_lons cross_idl get_longitudinal_extent (lons bdata) lon_bins of
             Inl err \<Rightarrow> Inl err
           | Inr lons_idx \<Rightarrow>
               let lats_idx = map (\<lambda>l. int (digitize l lat_bins) - 1) (lats bdata)
               in Inr (zip (map (fold_last_bin dim1) dists_idx)
                        (zip (map (fold_last_bin dim2) lons_idx)
                             (map (fold_last_bin dim3) lats_idx))))"

text \<open>
  The cell of the matrix that an index triple addresses, by Python's indexing of the first
  three axes.
\<close>

definition norm_cell :: "nat list \<Rightarrow> int \<times> int \<times> int \<Rightarrow> (nat \<times> nat \<times> nat) option" where
  "norm_cell s idx =
     (case idx of (i_dist, i_lon, i_lat) \<Rightarrow>
        (case (py_index (s ! 0) i_dist, py_index (s ! 1) i_lon, py_index (s ! 2) i_lat) of
           (Some i, Some j, Some k) \<Rightarrow> if 3 \<le> length s then Some (i, j, k) else None
         | _ \<Rightarrow> None))"

text \<open>\<^verbatim>\<open>mat6D[i_dist, i_lon, i_lat] *= pne\<close>\<close>

definition imul_cell :: "(int \<times> int \<times> int) \<times> ndarray \<Rightarrow> ndarray \<Rightarrow> error + ndarray" where
  "imul_cell = (\<lambda>(idx, pne) mat6D.
     case norm_cell (shp mat6D) idx of
       None \<Rightarrow> Inl IndexError
     | Some (i, j, k) \<Rightarrow>
         if broadcastable (shp pne) (drop 3 (shp mat6D))
         then Inr (mat6D\<lparr>elt := (\<lambda>ix.
                 if take 3 ix = [i, j, k]
                 then elt mat6D ix * elt pne (bcast (shp pne) (drop 3 ix))
                 else elt mat6D ix)\<rparr>)
         else Inl ValueError)"

definition build_disagg_matrix ::
  "(real \<Rightarrow> real \<Rightarrow> bool) \<Rightarrow> (real \<Rightarrow> real \<Rightarrow> real) \<Rightarrow> BinData
     \<Rightarrow> real list \<times> real list \<times> real list \<times> real list \<Rightarrow> error + ndarray" where
  "build_disagg_matrix cross_idl get_longitudinal_extent bdata bins =
     (case bins of (dist_bins, lon_bins, lat_bins, eps_bins) \<Rightarrow>
        let dim1 = int (length dist_bins) - 1;
            dim2 = int (length lon_bins) - 1;
            dim3 = int (length lat_bins) - 1;
            dim4 = int (length eps_bins) - 1
        in case rupture_cells cross_idl get_longitudinal_extent bdata bins of
             Inl err \<Rightarrow> Inl err
           | Inr cells \<Rightarrow>
              (case shp (pnes bdata) of
                 [U, E, M, P] \<Rightarrow>
                   if dim1 < 0 \<or> dim2 < 0 \<or> dim3 < 0 \<or> dim4 < 0 then Inl ValueError
                   else
                     (case fold_err imul_cell
                             (zip cells (map (nd_row (pnes bdata)) [0..<U]))
                             (np_ones [nat dim1, nat dim2, nat dim3, nat dim4, M, P]) of
                        Inl err \<Rightarrow> Inl err
                      | Inr mat6D \<Rightarrow> Inr (mat6D\<lparr>elt := (\<lambda>ix. 1 - elt mat6D ix)\<rparr>))
               | _ \<Rightarrow> Inl ValueError))"


section \<open>Rupture contexts and collaborators\<close>

text \<open>
  One record of the context array \<^verbatim>\<open>ctx\<close>, with the fields that the engine reads.
\<close>

record rupture =
  mag :: real
  rrup :: real
  clon :: real
  clat :: real
  occurrence_rate :: real
  probs_occur :: "real list"
  src_id :: nat
  sids :: nat

text \<open>
  The attributes of the \<^verbatim>\<open>ContextMaker\<close> that the engine reads: \<open>time_span\<close> stands
  for \<^verbatim>\<open>cmaker.tom.time_span\<close>, \<open>epsilon_star\<close> for \<^verbatim>\<open>cmaker.oq.epsilon_star\<close>,
  \<open>imtls\<close> for the keys of \<^verbatim>\<open>cmaker.imtls\<close> and \<open>gsims\<close> for the lists of
  realizations \<^verbatim>\<open>cmaker.gsims.values()\<close>.
\<close>

record cmaker =
  truncation_level :: real
  phi_b :: real
  time_span :: real
  imts :: "string list"
  imtls :: "string list"
  epsilon_star :: bool
  gsims :: "nat list list"

text \<open>A logarithmic intensity: a float that may be \<^verbatim>\<open>-numpy.inf\<close>.\<close>

datatype iml = NegInf | Finite real

typedecl source

text \<open>
  The functions that \<^verbatim>\<open>disagg.py\<close> imports from modules outside the sources; their
  values are not fixed here.  \<open>tn_cdf\<close> is the cumulative distribution function of
  \<^verbatim>\<open>scipy.stats.truncnorm(-t, t)\<close>, given \<open>t\<close>; \<open>get_mean_stds\<close> stands for
  \<^verbatim>\<open>cmaker.get_mean_stds([ctx], split_by_mag=True)[:2]\<close> and \<open>from_srcs\<close> for
  \<^verbatim>\<open>cmaker.from_srcs\<close>; \<open>idx_start_stop\<close> returns the rows
  \<open>(value, start, stop)\<close>.
\<close>

record collaborators =
  tn_cdf :: "real \<Rightarrow> real \<Rightarrow> real"
  truncnorm_sf :: "real \<Rightarrow> real \<Rightarrow> real"
  get_pnes :: "real \<Rightarrow> real list \<Rightarrow> ndarray \<Rightarrow> real \<Rightarrow> ndarray"
  cross_idl :: "real \<Rightarrow> real \<Rightarrow> bool"
  get_longitudinal_extent :: "real \<Rightarrow> real \<Rightarrow> real"
  to_distribution_values :: "real list \<Rightarrow> string \<Rightarrow> iml list"
  get_mean_stds :: "rupture list \<Rightarrow> ndarray \<times> ndarray"
  idx_start_stop :: "nat list \<Rightarrow> (nat \<times> nat \<times> nat) list"
  from_srcs :: "source list \<Rightarrow> nat list \<Rightarrow> rupture list list"

section \<open>Exceedance kernel: \<^verbatim>\<open>_disaggregate\<close>\<close>




text \<open>\<^verbatim>\<open>pnes[u] *= a\<close> and \<^verbatim>\<open>pnes[:, e, m, p] *= f\<close>, for \<open>f\<close> given per rupture.\<close>

definition imul_row :: "nat \<Rightarrow> ndarray \<Rightarrow> ndarray \<Rightarrow> ndarray" where
  "imul_row u a arr =
     arr\<lparr>elt := (\<lambda>ix. case ix of
                      [] \<Rightarrow> elt arr ix
                    | u' # rest \<Rightarrow> if u' = u then elt arr ix * elt a rest else elt arr ix)\<rparr>"

definition imul_col :: "nat \<times> nat \<times> nat \<Rightarrow> (nat \<Rightarrow> real) \<Rightarrow> ndarray \<Rightarrow> ndarray" where
  "imul_col = (\<lambda>(e, m, p) f arr.
     arr\<lparr>elt := (\<lambda>ix. case ix of
                      [u, e', m', p'] \<Rightarrow>
                        if e' = e \<and> m' = m \<and> p' = p then elt arr ix * f u else elt arr ix
                    | _ \<Rightarrow> elt arr ix)\<rparr>)"

text \<open>
  The block \<^verbatim>\<open>multiplying pnes\<close>: from an array of ones, either every rupture's
  sub-array is multiplied by what \<^verbatim>\<open>get_pnes\<close> returns for it, when any rupture has
  a non-empty \<^verbatim>\<open>probs_occur\<close>, or every slice \<^verbatim>\<open>pnes[:, e, m, p]\<close> is multiplied by
  \<^verbatim>\<open>numpy.exp(-ctx.occurrence_rate * poes[:, e, m, p] * time_span)\<close>.  The array that
  \<^verbatim>\<open>get_pnes\<close> returns is read at the indices of \<^verbatim>\<open>poes[u]\<close>.
\<close>

definition multiply_pnes ::
  "(real \<Rightarrow> real list \<Rightarrow> ndarray \<Rightarrow> real \<Rightarrow> ndarray) \<Rightarrow> rupture list \<Rightarrow> ndarray \<Rightarrow> real
     \<Rightarrow> nat \<Rightarrow> nat \<Rightarrow> nat \<Rightarrow> ndarray" where
  "multiply_pnes gp ctx poes tspan E M P =
     (let U = length ctx;
          ones = np_ones [U, E, M, P]
      in if list_ex (\<lambda>r. length (probs_occur r) \<noteq> 0) ctx
         then fold (\<lambda>(u, rec).
                      imul_row u (gp (occurrence_rate rec) (probs_occur rec) (nd_row poes u) tspan))
                (enumerate 0 ctx) ones
         else fold (\<lambda>emp.
                      imul_col emp (\<lambda>u. exp (- occurrence_rate (ctx ! u)
                                              * elt poes (u # fst emp # fst (snd emp) # [snd (snd emp)])
                                              * tspan)))
                (List.product [0..<E] (List.product [0..<M] [0..<P])) ones)"



section \<open>The orchestrator: class \<^verbatim>\<open>Disaggregator\<close>\<close>

text \<open>
  The dictionary \<^verbatim>\<open>src_mutex\<close> with its keys \<^verbatim>\<open>src_id\<close>, \<^verbatim>\<open>weight\<close>,
  \<^verbatim>\<open>start\<close> and \<^verbatim>\<open>stop\<close>; an argument that Python reads as false (\<^verbatim>\<open>None\<close> or
  an empty dictionary) is \<open>None\<close>.
\<close>

record src_mutex =
  mutex_src_id :: "nat list"
  mutex_weight :: "real list"
  mutex_start :: "nat list"
  mutex_stop :: "nat list"

text \<open>
  The attributes of the object.  \<open>magi\<close>, \<open>src_mutex\<close>, \<open>ctx\<close>, \<open>mea\<close>, \<open>std\<close> and
  \<open>weights\<close> are created by \<^verbatim>\<open>init\<close>; the constructor leaves them at default values
  here, and \<^verbatim>\<open>disagg6D\<close> is meant for an object that \<^verbatim>\<open>init\<close> has returned.
\<close>

record Disaggregator =
  sid :: nat
  cmaker :: cmaker
  epsstar :: bool
  bin_edges :: "real list \<times> real list \<times> real list \<times> real list \<times> real list"
  g_by_rlz :: "nat \<rightharpoonup> nat"
  fullmagi :: "int list"
  fullctx :: "rupture list"
  magi :: int
  src_mutex :: "src_mutex option"
  ctx :: "rupture list"
  mea :: ndarray
  std :: ndarray
  weights :: "real list"

datatype site_arg = OneSite "nat option" | SiteCollection "nat list"

datatype srcs_or_ctxs = Contexts "rupture list list" | Sources "source list"

text \<open>
  The site collection of the constructor, as the list of its site identifiers: a single
  \<^verbatim>\<open>Site\<close> gets the identifier 0 when it has none, and a collection is asserted to
  have the length one.
\<close>

definition site_collection :: "site_arg \<Rightarrow> error + nat list" where
  "site_collection site =
     (case site of
        OneSite None \<Rightarrow> Inr [0]
      | OneSite (Some i) \<Rightarrow> Inr [i]
      | SiteCollection sitecol \<Rightarrow> if length sitecol = 1 then Inr sitecol else Inl AssertionError)"

text \<open>\<^verbatim>\<open>cmaker.imts = imts\<close> after the assertion that every one is a key of \<^verbatim>\<open>imtls\<close>.\<close>

definition with_imts :: "cmaker \<Rightarrow> string list option \<Rightarrow> error + cmaker" where
  "with_imts cm imts_arg =
     (case imts_arg of
        None \<Rightarrow> Inr cm
      | Some l \<Rightarrow> if list_all (\<lambda>imt. imt \<in> set (imtls cm)) l then Inr (cm\<lparr>imts := l\<rparr>)
                  else Inl AssertionError)"

text \<open>
  The list \<^verbatim>\<open>ctxs\<close>: the given context arrays restricted to the site, or what
  \<^verbatim>\<open>cmaker.from_srcs\<close> builds from the given sources.  \<^verbatim>\<open>srcs_or_ctxs[0]\<close> raises on
  an empty list.
\<close>

definition contexts_of ::
  "collaborators \<Rightarrow> srcs_or_ctxs \<Rightarrow> nat list \<Rightarrow> nat \<Rightarrow> error + rupture list list" where
  "contexts_of ext arg sitecol i =
     (case arg of
        Contexts cs \<Rightarrow>
          if cs = [] then Inl IndexError else Inr (map (filter (\<lambda>r. sids r = i)) cs)
      | Sources srcs \<Rightarrow>
          if srcs = [] then Inl IndexError else Inr (from_srcs ext srcs sitecol))"

text \<open>
  \<^verbatim>\<open>Disaggregator.__init__\<close>.  The edges of longitude and latitude are dictionaries keyed
  by the site identifier; \<^verbatim>\<open>numpy.concatenate\<close> raises on an empty list of arrays.
\<close>

definition Disaggregator_init ::
  "collaborators \<Rightarrow> srcs_or_ctxs \<Rightarrow> site_arg \<Rightarrow> cmaker
     \<Rightarrow> real list \<times> real list \<times> (nat \<rightharpoonup> real list) \<times> (nat \<rightharpoonup> real list) \<times> real list
     \<Rightarrow> string list option \<Rightarrow> error + Disaggregator" where
  "Disaggregator_init ext arg site cm edges imts_arg =
     (case edges of (mag_edges, dist_edges, lon_by_sid, lat_by_sid, eps_edges) \<Rightarrow>
      case site_collection site of
        Inl err \<Rightarrow> Inl err
      | Inr sitecol \<Rightarrow>
     (let i = hd sitecol in
      case with_imts cm imts_arg of
        Inl err \<Rightarrow> Inl err
      | Inr cm' \<Rightarrow>
     (case (lon_by_sid i, lat_by_sid i) of
        (Some lon_edges, Some lat_edges) \<Rightarrow>
          (case contexts_of ext arg sitecol i of
             Inl err \<Rightarrow> Inl err
           | Inr ctxs \<Rightarrow>
               if ctxs = [] then Inl ValueError
               else if length (concat ctxs) = 0 then Inl FarAwayRupture
               else Inr \<lparr>sid = i, cmaker = cm', epsstar = epsilon_star cm',
                         bin_edges = (mag_edges, dist_edges, lon_edges, lat_edges, eps_edges),
                         g_by_rlz = fold (\<lambda>(g, rlzs) d. fold (\<lambda>rlz d'. d'(rlz \<mapsto> g)) rlzs d)
                                      (enumerate 0 (gsims cm')) Map.empty,
                         fullmagi = map (\<lambda>r. fullmagi_of mag_edges (mag r)) (concat ctxs),
                         fullctx = concat ctxs,
                         magi = 0, src_mutex = None, ctx = [],
                         mea = np_zeros [], std = np_zeros [], weights = []\<rparr>)
      | _ \<Rightarrow> Inl KeyError)))"

text \<open>
  \<^verbatim>\<open>Disaggregator.init\<close>.  The sort by \<^verbatim>\<open>src_id\<close> is taken to be stable.
\<close>

definition init ::
  "collaborators \<Rightarrow> Disaggregator \<Rightarrow> int \<Rightarrow> src_mutex option \<Rightarrow> error + Disaggregator" where
  "init ext self i sm_arg =
     (let sel = map fst (filter (\<lambda>(r, j). j = i) (zip (fullctx self) (fullmagi self))) in
      if length sel = 0 then Inl FarAwayRupture
      else
        (let sorted_ctx = (case sm_arg of None \<Rightarrow> sel | Some sm \<Rightarrow> sort_key src_id sel);
             ms = get_mean_stds ext sorted_ctx;
             self1 = self\<lparr>magi := i, src_mutex := sm_arg, ctx := sorted_ctx,
                          mea := fst ms, std := snd ms\<rparr>
         in case sm_arg of
              None \<Rightarrow> Inr self1
            | Some sm \<Rightarrow>
                (let mat = idx_start_stop ext (map src_id sorted_ctx);
                     src_ids = map fst mat
                 in Inr (self1\<lparr>src_mutex := Some (sm\<lparr>mutex_start := map (\<lambda>row. fst (snd row)) mat,
                                                        mutex_stop := map (\<lambda>row. snd (snd row)) mat\<rparr>),
                               weights := map snd (filter (\<lambda>(s, w). s \<in> set src_ids)
                                             (zip (mutex_src_id sm) (mutex_weight sm)))\<rparr>))))"







section \<open>A concrete scenario\<close>

text \<open>
  Values for the collaborators and a small set of ruptures, used where a property is
  evaluated on a concrete input.  They stand in for the functions outside the sources and
  are not their definitions: the distribution function is that of a uniform distribution
  on \<open>[-t, t]\<close>, the occurrence model returns the first occurrence probability clipped to
  \<open>[0, 1]\<close>, the conversion of intensities subtracts one, and every rupture has its own
  source.
\<close>

definition demo_collaborators :: collaborators where
  "demo_collaborators =
     \<lparr>tn_cdf = (\<lambda>t x. max 0 (min 1 ((x + t) / (2 * t)))),
      truncnorm_sf = (\<lambda>b x. 1 - max 0 (min 1 ((x + 3) / 6))),
      get_pnes = (\<lambda>rate probs a tspan.
                    a\<lparr>elt := (\<lambda>ix. case probs of [] \<Rightarrow> 1 | q # qs \<Rightarrow> max 0 (min 1 q))\<rparr>),
      cross_idl = (\<lambda>lon1 lon2. False),
      get_longitudinal_extent = (\<lambda>lon1 lon2. lon2 - lon1),
      to_distribution_values = (\<lambda>vals imt. map (\<lambda>x. Finite (x - 1)) vals),
      get_mean_stds = (\<lambda>c. (\<lparr>shp = [1, 1, length c], elt = (\<lambda>ix. 0)\<rparr>,
                              \<lparr>shp = [1, 1, length c], elt = (\<lambda>ix. 1)\<rparr>)),
      idx_start_stop = (\<lambda>ids. map (\<lambda>(n, i). (i, n, n + 1)) (enumerate 0 ids)),
      from_srcs = (\<lambda>srcs sitecol. [])\<rparr>"

definition demo_cmaker :: cmaker where
  "demo_cmaker =
     \<lparr>truncation_level = 3, phi_b = 1, time_span = 50, imts = [''PGA''], imtls = [''PGA''],
      epsilon_star = False, gsims = [[0]]\<rparr>"

definition demo_ruptures :: "rupture list" where
  "demo_ruptures =
     [\<lparr>mag = 11/2, rrup = 5, clon = 1/2, clat = 1/2, occurrence_rate = 1/100,
       probs_occur = [1/2], src_id = 0, sids = 0\<rparr>,
      \<lparr>mag = 11/2, rrup = 5, clon = 1/2, clat = 1/2, occurrence_rate = 1/100,
       probs_occur = [1/4], src_id = 1, sids = 0\<rparr>]"

text \<open>
  The object that the constructor returns for these ruptures at site 0, and the object
  that \<^verbatim>\<open>init\<close> returns for it at the magnitude bin 0 with two mutually exclusive
  sources of weight one half.
\<close>

definition demo_constructed :: Disaggregator where
  "demo_constructed =
     \<lparr>sid = 0, cmaker = demo_cmaker, epsstar = False,
      bin_edges = ([5, 6, 7], [0, 10], [0, 1], [0, 1], [-3, 3]),
      g_by_rlz = [0 \<mapsto> 0], fullmagi = [0, 0], fullctx = demo_ruptures,
      magi = 0, src_mutex = None, ctx = [], mea = np_zeros [], std = np_zeros [],
      weights = []\<rparr>"

definition demo_initialised :: Disaggregator where
  "demo_initialised =
     demo_constructed
       \<lparr>magi := 0,
        src_mutex := Some \<lparr>mutex_src_id = [0, 1], mutex_weight = [1/2, 1/2],
                           mutex_start = [0, 1], mutex_stop = [1, 2]\<rparr>,
        ctx := demo_ruptures,
        mea := \<lparr>shp = [1, 1, 2], elt = (\<lambda>ix. 0)\<rparr>,
        std := \<lparr>shp = [1, 1, 2], elt = (\<lambda>ix. 1)\<rparr>,
        weights := [1/2, 1/2]\<rparr>"


section \<open>Properties of the epsilon bands\<close>

lemma disagg_eps_col_length: "length (disagg_eps_col s b c ek res) = length res"
  by (cases ek) (simp add: disagg_eps_col_def)

lemma disagg_eps_col_row_length:
  "u < length res \<Longrightarrow> length (disagg_eps_col s b c ek res ! u) = length (res ! u)"
  by (cases ek) (simp add: disagg_eps_col_def Let_def)

lemma disagg_eps_col_nth:
  "u < length res \<Longrightarrow> e < length (res ! u) \<Longrightarrow>
   disagg_eps_col s b c (k, band) res ! u ! e =
     (if e = k then (if b ! u = k + 1 then s ! u - c ! (b ! u)
                     else if b ! u \<le> k then band else res ! u ! e)
      else res ! u ! e)"
  by (simp add: disagg_eps_col_def Let_def)

lemma fold_cols:
  "u < length res \<Longrightarrow> e < length (res ! u) \<Longrightarrow>
   (let r = fold (disagg_eps_col s b c) (enumerate k bs) res in
    length r = length res \<and> length (r ! u) = length (res ! u) \<and>
    r ! u ! e =
     (if k \<le> e \<and> e < k + length bs
      then (if b ! u = e + 1 then s ! u - c ! (b ! u)
            else if b ! u \<le> e then bs ! (e - k) else res ! u ! e)
      else res ! u ! e))"
proof (induction bs arbitrary: k res)
  case Nil
  then show ?case by simp
next
  case (Cons x xs)
  let ?res1 = "disagg_eps_col s b c (k, x) res"
  have l1: "u < length ?res1" using Cons.prems by (simp add: disagg_eps_col_length)
  have l2: "e < length (?res1 ! u)" using Cons.prems by (simp add: disagg_eps_col_row_length)
  note ih = Cons.IH[OF l1 l2, of "Suc k"]
  show ?case using ih Cons.prems
    by (auto simp: Let_def disagg_eps_col_length disagg_eps_col_row_length disagg_eps_col_nth nth_Cons')
qed

lemma disagg_eps_nth:
  assumes "u < length bins" "e < length eps_bands"
  shows "disagg_eps survival bins eps_bands cum_bands ! u ! e =
     (if bins ! u = e + 1 then survival ! u - cum_bands ! (bins ! u)
      else if bins ! u \<le> e then eps_bands ! e else 0)"
  using fold_cols[of u "replicate (length bins) (replicate (length eps_bands) 0)" e survival bins cum_bands 0 eps_bands] assms
  by (simp add: disagg_eps_def Let_def)

lemma disagg_eps_row_length:
  assumes "u < length bins" "0 < length eps_bands"
  shows "length (disagg_eps survival bins eps_bands cum_bands ! u) = length eps_bands"
  using fold_cols[of u "replicate (length bins) (replicate (length eps_bands) 0)" 0 survival bins cum_bands 0 eps_bands] assms
  by (simp add: disagg_eps_def Let_def)


lemma sum_list_drop_nth:
  "sum_list (drop b xs) = (\<Sum>e = b..<length xs. (xs ! e :: real))"
proof -
  have "sum_list (drop b xs) = (\<Sum>i = 0..<length xs - b. drop b xs ! i)"
    by (simp add: sum_list_sum_nth)
  also have "\<dots> = (\<Sum>i = 0..<length xs - b. xs ! (b + i))"
    by (rule sum.cong) auto
  also have "\<dots> = (\<Sum>e = b..<length xs. xs ! e)"
    by (rule sum.reindex_bij_witness[where i="\<lambda>e. e - b" and j="\<lambda>i. b + i"]) auto
  finally show ?thesis .
qed

lemma eps_row_sum:
  fixes s c :: real and bands :: "real list"
  assumes len: "length row = length bands"
    and row: "\<And>e. e < length bands \<Longrightarrow>
        row ! e = (if b = e + 1 then s - c else if b \<le> e then bands ! e else 0)"
    and b: "1 \<le> b" "b \<le> length bands"
    and c: "c = sum_list (drop b bands)"
  shows "sum_list row = s"
proof -
  let ?E = "length bands"
  have split: "{0..<?E} = {0..<b - 1} \<union> {b - 1} \<union> {b..<?E}"
    using b by auto
  have "sum_list row = (\<Sum>e = 0..<?E. row ! e)"
    by (simp add: sum_list_sum_nth len)
  also have "\<dots> = (\<Sum>e = 0..<?E. if b = e + 1 then s - c else if b \<le> e then bands ! e else 0)"
    by (rule sum.cong) (auto simp: row)
  also have "\<dots> = (\<Sum>e \<in> {0..<b - 1}. 0) + (s - c) + (\<Sum>e = b..<?E. bands ! e)"
  proof -
    let ?f = "\<lambda>e. if b = e + 1 then s - c else if b \<le> e then bands ! e else 0"
    have d1: "({0..<b - 1} \<union> {b - 1}) \<inter> {b..<?E} = {}" using b by auto
    have d2: "{0..<b - 1} \<inter> {b - 1} = {}" by auto
    have "sum ?f {0..<?E} = sum ?f ({0..<b - 1} \<union> {b - 1}) + sum ?f {b..<?E}"
      unfolding split by (rule sum.union_disjoint) (use d1 in auto)
    also have "sum ?f ({0..<b - 1} \<union> {b - 1}) = sum ?f {0..<b - 1} + sum ?f {b - 1}"
      by (rule sum.union_disjoint) (use d2 in auto)
    also have "sum ?f {0..<b - 1} = (\<Sum>e \<in> {0..<b - 1}. 0)"
      by (rule sum.cong) auto
    also have "sum ?f {b - 1} = s - c" using b by simp
    also have "sum ?f {b..<?E} = (\<Sum>e = b..<?E. bands ! e)"
      by (rule sum.cong) auto
    finally show ?thesis .
  qed
  also have "\<dots> = s" by (simp add: c sum_list_drop_nth)
  finally show ?thesis .
qed


lemma get_eps4_Inr:
  assumes "eps_edges \<noteq> []"
  shows "get_eps4 cdf eps_edges t =
     Inr (fold min (tl eps_edges) (hd eps_edges), fold max (tl eps_edges) (hd eps_edges),
          map2 (\<lambda>hi lo. cdf t hi - cdf t lo) (tl eps_edges) (butlast eps_edges),
          map (\<lambda>e. sum_list (drop e (map2 (\<lambda>hi lo. cdf t hi - cdf t lo) (tl eps_edges) (butlast eps_edges))))
              [0..<length eps_edges - 1] @ [0])"
  using assms by (cases eps_edges) (simp_all add: get_eps4_def Let_def)

lemma get_eps4_cum_nth:
  assumes "get_eps4 cdf eps_edges t = Inr (mn, mx, eps_bands, eps_cum)"
    and "b \<le> length eps_bands"
  shows "eps_cum ! b = sum_list (drop b eps_bands)"
proof -
  have ne: "eps_edges \<noteq> []" using assms(1) by (auto simp: get_eps4_def)
  have len: "length eps_bands = length eps_edges - 1"
    using assms(1) unfolding get_eps4_Inr[OF ne] by auto
  have cum: "eps_cum = map (\<lambda>e. sum_list (drop e eps_bands)) [0..<length eps_bands] @ [0]"
    using assms(1) unfolding get_eps4_Inr[OF ne] by auto
  show ?thesis
  proof (cases "b < length eps_bands")
    case True
    then show ?thesis by (simp add: cum nth_append)
  next
    case False
    then have "b = length eps_bands" using assms(2) by simp
    then show ?thesis by (simp add: cum nth_append)
  qed
qed

text \<open>
  Claim C5.  For a non-empty, strictly increasing array of epsilon edges and a positive
  truncation level, \<^verbatim>\<open>get_eps4\<close> returns: \<open>eps_bands\<close>, whose entry \<open>e\<close> is the
  difference of the truncated normal's cumulative distribution function between the
  edges \<open>e + 1\<close> and \<open>e\<close>; and \<open>eps_cum\<close>, one entry longer, whose entry \<open>e\<close> is
  the sum of \<open>eps_bands\<close> from \<open>e\<close> onward, whose first entry is the sum of all bands and
  whose last entry is the appended zero.
\<close>

theorem get_eps4_bands_cum:
  assumes "sorted_wrt (<) eps_edges" and "eps_edges \<noteq> []" and "0 < t"
  shows "\<exists>mn mx eps_bands eps_cum.
     get_eps4 cdf eps_edges t = Inr (mn, mx, eps_bands, eps_cum) \<and>
     length eps_bands = length eps_edges - 1 \<and>
     (\<forall>e < length eps_bands.
        eps_bands ! e = cdf t (eps_edges ! (e + 1))
                        - cdf t (eps_edges ! e)) \<and>
     length eps_cum = length eps_bands + 1 \<and>
     (\<forall>e < length eps_bands. eps_cum ! e = sum_list (drop e eps_bands)) \<and>
     eps_cum ! 0 = sum_list eps_bands \<and>
     eps_cum ! length eps_bands = 0"
proof -
  let ?bands = "map2 (\<lambda>hi lo. cdf t hi - cdf t lo)
                  (tl eps_edges) (butlast eps_edges)"
  let ?cum = "map (\<lambda>e. sum_list (drop e ?bands)) [0..<length eps_edges - 1] @ [0]"
  have eq: "get_eps4 cdf eps_edges t =
      Inr (fold min (tl eps_edges) (hd eps_edges), fold max (tl eps_edges) (hd eps_edges),
           ?bands, ?cum)"
    by (rule get_eps4_Inr[OF assms(2)])
  have len: "length ?bands = length eps_edges - 1" by simp
  have bands: "?bands ! e = cdf t (eps_edges ! (e + 1))
                        - cdf t (eps_edges ! e)" if "e < length ?bands" for e
    using that by (simp add: nth_tl nth_butlast)
  have cumlen: "length ?cum = length ?bands + 1" by simp
  have cum: "?cum ! b = sum_list (drop b ?bands)" if "b \<le> length ?bands" for b
    by (rule get_eps4_cum_nth[OF eq that])
  have c0: "?cum ! 0 = sum_list ?bands" using cum[of 0] by simp
  have cE: "?cum ! length ?bands = 0" using cum[of "length ?bands"] by simp
  show ?thesis
    using eq len bands cumlen cum c0 cE by (intro exI conjI allI impI) (assumption | simp)+
qed

text \<open>
  Claim C1.  For a rupture whose standardised residual is located by
  \<^verbatim>\<open>searchsorted\<close> at an index between 1 and the number of epsilon bins, the row
  that \<^verbatim>\<open>_disagg_eps\<close> computes for it (the full band for every bin at or above the
  index, the survival value minus the cumulative mass at the index for the bin holding
  the residual, zero below) sums over the epsilon bins to the survival value
  \<^verbatim>\<open>truncnorm_sf\<close> of the residual.
\<close>

theorem disagg_eps_sums_to_survival:
  assumes eps4: "get_eps4 cdf eps_edges t = Inr (min_eps, max_eps, eps_bands, cum_bands)"
    and u: "u < length lvls"
    and lo: "1 \<le> searchsorted eps_edges (lvls ! u)"
    and hi: "searchsorted eps_edges (lvls ! u) \<le> length eps_bands"
  shows "sum_list (disagg_eps (map (sf b0) lvls) (map (searchsorted eps_edges) lvls)
                      eps_bands cum_bands ! u)
         = sf b0 (lvls ! u)"
proof -
  let ?bins = "map (searchsorted eps_edges) lvls"
  let ?surv = "map (sf b0) lvls"
  let ?b = "searchsorted eps_edges (lvls ! u)"
  have E: "0 < length eps_bands" using lo hi by (cases eps_bands) auto
  have u': "u < length ?bins" using u by simp
  have rowlen: "length (disagg_eps ?surv ?bins eps_bands cum_bands ! u) = length eps_bands"
    by (rule disagg_eps_row_length[OF u' E])
  have cum: "cum_bands ! ?b = sum_list (drop ?b eps_bands)"
    by (rule get_eps4_cum_nth[OF eps4 hi])
  have row: "disagg_eps ?surv ?bins eps_bands cum_bands ! u ! e =
      (if ?b = e + 1 then sf b0 (lvls ! u) - cum_bands ! ?b
       else if ?b \<le> e then eps_bands ! e else 0)" if "e < length eps_bands" for e
    using disagg_eps_nth[OF u' that, of ?surv cum_bands] u by simp
  show ?thesis
    by (rule eps_row_sum[OF rowlen row lo hi cum])
qed


text \<open>Claim C5 at the edges \<open>-3, 0, 3\<close> with a clipped linear distribution function.\<close>

theorem get_eps4_bands_cum_witness:
  "sorted_wrt (<) [-3, 0, 3 :: real] \<and> [-3, 0, 3 :: real] \<noteq> [] \<and> (0 :: real) < 3 \<and>
   get_eps4 (\<lambda>t x. max 0 (min 1 ((x + t) / (2 * t)))) [-3, 0, 3] 3
     = Inr (-3, 3, [1/2, 1/2], [1, 1/2, 0])"
  using get_eps4_bands_cum[of "[-3, 0, 3]" 3 "\<lambda>t x. max 0 (min 1 ((x + t) / (2 * t)))"]
  by (simp add: get_eps4_def)

text \<open>Claim C1 at one rupture with residual 1 between the edges 0 and 3.\<close>

theorem disagg_eps_sums_to_survival_witness:
  "get_eps4 (\<lambda>t x. max 0 (min 1 ((x + t) / (2 * t)))) [-3, 0, 3] 3
     = Inr (-3, 3, [1/2, 1/2], [1, 1/2, 0]) \<and>
   (0::nat) < length [1 :: real] \<and>
   1 \<le> searchsorted [-3, 0, 3] ([1] ! 0) \<and>
   searchsorted [-3, 0, 3] ([1] ! 0) \<le> length [1/2, 1/2 :: real] \<and>
   sum_list (disagg_eps (map ((\<lambda>b x. max 0 (min 1 ((b - x) / (2 * b)))) 3) [1])
                        (map (searchsorted [-3, 0, 3]) [1]) [1/2, 1/2] [1, 1/2, 0] ! 0) = 1/3"
  using disagg_eps_sums_to_survival[of "\<lambda>t x. max 0 (min 1 ((x + t) / (2 * t)))"
      "[-3, 0, 3]" 3 "-3" 3 "[1/2, 1/2]" "[1, 1/2, 0]" 0 "[1]"
      "\<lambda>b x. max 0 (min 1 ((b - x) / (2 * b)))" 3]
  by (simp add: get_eps4_def searchsorted_def)

section \<open>Properties of the magnitude edges and of the magnitude bins\<close>


lemma sorted_le_last:
  fixes xs :: "real list"
  assumes "sorted xs" "x \<in> set xs"
  shows "x \<le> last xs"
proof -
  obtain i where i: "i < length xs" "xs ! i = x" using assms(2) by (auto simp: in_set_conv_nth)
  have "xs \<noteq> []" using assms(2) by auto
  then have "last xs = xs ! (length xs - 1)" by (simp add: last_conv_nth)
  moreover have "xs ! i \<le> xs ! (length xs - 1)"
    using assms(1) i by (intro sorted_nth_mono) auto
  ultimately show ?thesis using i by simp
qed
















section \<open>Properties of the matrix accumulator\<close>

lemma fold_err_imul_cell:
  assumes "\<And>idx pne. (idx, pne) \<in> set pairs \<Longrightarrow>
             norm_cell (shp mat) idx \<noteq> None \<and> broadcastable (shp pne) (drop 3 (shp mat))"
  shows "\<exists>mat'. fold_err imul_cell pairs mat = Inr mat' \<and> shp mat' = shp mat \<and>
           (\<forall>i j k rest. elt mat' (i # j # k # rest) =
              elt mat (i # j # k # rest) *
              prod_list (map (\<lambda>(idx, pne). elt pne (bcast (shp pne) rest))
                          (filter (\<lambda>(idx, pne). norm_cell (shp mat) idx = Some (i, j, k)) pairs)))"
  using assms
proof (induction pairs arbitrary: mat)
  case Nil
  then show ?case by simp
next
  case (Cons a pairs)
  obtain idx pne where a: "a = (idx, pne)" by (cases a)
  from Cons.prems[of idx pne] a obtain c where
    c: "norm_cell (shp mat) idx = Some c" and b: "broadcastable (shp pne) (drop 3 (shp mat))"
    by auto
  obtain i0 j0 k0 where c3: "c = (i0, j0, k0)" by (cases c)
  let ?mat1 = "mat\<lparr>elt := (\<lambda>ix. if take 3 ix = [i0, j0, k0]
                 then elt mat ix * elt pne (bcast (shp pne) (drop 3 ix)) else elt mat ix)\<rparr>"
  have step: "imul_cell a mat = Inr ?mat1"
    using c b by (simp add: imul_cell_def a c3)
  have shp1: "shp ?mat1 = shp mat" by simp
  have "norm_cell (shp ?mat1) idx' \<noteq> None \<and> broadcastable (shp pne') (drop 3 (shp ?mat1))"
    if "(idx', pne') \<in> set pairs" for idx' pne'
  proof -
    have "(idx', pne') \<in> set (a # pairs)" using that by simp
    from Cons.prems[OF this] show ?thesis by simp
  qed
  from Cons.IH[OF this] obtain mat' where
    m': "fold_err imul_cell pairs ?mat1 = Inr mat'" "shp mat' = shp mat"
      "\<And>i j k rest. elt mat' (i # j # k # rest) =
          elt ?mat1 (i # j # k # rest) *
          prod_list (map (\<lambda>(idx, pne). elt pne (bcast (shp pne) rest))
             (filter (\<lambda>(idx, pne). norm_cell (shp mat) idx = Some (i, j, k)) pairs))"
    by auto
  have "fold_err imul_cell (a # pairs) mat = Inr mat'" using step m'(1) by simp
  moreover have "elt mat' (i # j # k # rest) =
      elt mat (i # j # k # rest) *
      prod_list (map (\<lambda>(idx, pne). elt pne (bcast (shp pne) rest))
        (filter (\<lambda>(idx, pne). norm_cell (shp mat) idx = Some (i, j, k)) (a # pairs)))" for i j k rest
    using m'(3)[of i j k rest] c by (auto simp: a c3)
  ultimately show ?case using m'(2) by blast
qed

lemma py_index_in_range:
  assumes "- 1 \<le> i" "i < int n" "0 < n"
  shows "py_index n i = Some (if i = - 1 then n - 1 else nat i)"
  using assms by (auto simp: py_index_def)

lemma digitize_le_length: "digitize x bins \<le> length bins"
  by (simp add: digitize_def length_takeWhile_le)

lemma fold_last_bin_range:
  assumes "- 1 \<le> i" "i \<le> d" "1 \<le> d"
  shows "- 1 \<le> fold_last_bin d i \<and> fold_last_bin d i < d"
  using assms by (auto simp: fold_last_bin_def)

lemma digitize_index_range:
  assumes "2 \<le> length bins"
  shows "- 1 \<le> fold_last_bin (int (length bins) - 1) (int (digitize x bins) - 1) \<and>
         fold_last_bin (int (length bins) - 1) (int (digitize x bins) - 1) < int (length bins - 1)"
proof -
  have "int (digitize x bins) - 1 \<le> int (length bins) - 1"
    using digitize_le_length[of x bins] by simp
  then show ?thesis
    using fold_last_bin_range[of "int (digitize x bins) - 1" "int (length bins) - 1"] assms
    by auto
qed

lemma lon_fold_range:
  "0 \<le> i0 \<Longrightarrow>
   0 \<le> fold (\<lambda>i_lon idx. if P i_lon then int i_lon else idx) [0..<n] i0 \<and>
   (fold (\<lambda>i_lon idx. if P i_lon then int i_lon else idx) [0..<n] i0 = i0 \<or>
    fold (\<lambda>i_lon idx. if P i_lon then int i_lon else idx) [0..<n] i0 < int n)"
  by (induction n) auto

lemma digitize_lons_range:
  assumes "2 \<le> length lon_bins"
  shows "\<exists>lons_idx. digitize_lons ci gle lons_arr lon_bins = Inr lons_idx \<and>
           length lons_idx = length lons_arr \<and>
           (\<forall>i \<in> set lons_idx. - 1 \<le> i \<and> i \<le> int (length lon_bins) - 1)"
proof (cases "ci (hd lon_bins) (last lon_bins)")
  case True
  have ne: "lon_bins \<noteq> []" using assms by auto
  let ?f = "\<lambda>lon. fold (\<lambda>i_lon idx.
                       if 0 < gle lon (lon_bins ! (i_lon + 1)) \<and>
                          (i_lon = 0 \<or> 0 \<le> gle (lon_bins ! i_lon) lon)
                       then int i_lon else idx)
                    [0..<length lon_bins - 1] 0"
  have r: "- 1 \<le> ?f lon \<and> ?f lon \<le> int (length lon_bins) - 1" for lon
    using lon_fold_range[of 0 "\<lambda>i_lon. 0 < gle lon (lon_bins ! (i_lon + 1)) \<and>
                          (i_lon = 0 \<or> 0 \<le> gle (lon_bins ! i_lon) lon)" "length lon_bins - 1"]
      assms by auto
  have "digitize_lons ci gle lons_arr lon_bins = Inr (map ?f lons_arr)"
    using True ne by (simp add: digitize_lons_def)
  moreover have "\<forall>i \<in> set (map ?f lons_arr). - 1 \<le> i \<and> i \<le> int (length lon_bins) - 1"
    using r by auto
  ultimately show ?thesis by (intro exI[of _ "map ?f lons_arr"]) simp
next
  case False
  have ne: "lon_bins \<noteq> []" using assms by auto
  have "digitize_lons ci gle lons_arr lon_bins
          = Inr (map (\<lambda>lon. int (digitize lon lon_bins) - 1) lons_arr)"
    using False ne by (simp add: digitize_lons_def)
  moreover have "\<forall>i \<in> set (map (\<lambda>lon. int (digitize lon lon_bins) - 1) lons_arr).
                   - 1 \<le> i \<and> i \<le> int (length lon_bins) - 1"
  proof -
    have "int (digitize x lon_bins) - 1 \<le> int (length lon_bins) - 1" for x
      using digitize_le_length[of x lon_bins] by simp
    then show ?thesis by simp
  qed
  ultimately show ?thesis
    by (intro exI[of _ "map (\<lambda>lon. int (digitize lon lon_bins) - 1) lons_arr"]) simp
qed


lemma norm_cell_in_range:
  assumes "- 1 \<le> a" "a < int D" "- 1 \<le> b" "b < int Lo" "- 1 \<le> c" "c < int La"
    and "0 < D" "0 < Lo" "0 < La"
  shows "norm_cell (D # Lo # La # rest) (a, b, c)
           = Some (if a = - 1 then D - 1 else nat a,
                   if b = - 1 then Lo - 1 else nat b,
                   if c = - 1 then La - 1 else nat c)"
  using assms by (simp add: norm_cell_def py_index_in_range)

lemma zip_map_upt:
  "zip cells (map f [0..<U]) = map (\<lambda>u. (cells ! u, f u)) [0..<min (length cells) U]"
  by (rule nth_equalityI) auto

lemma bcast_id:
  assumes "e < E" "m < M" "p < P"
  shows "bcast [E, M, P] [e, m, p] = [e, m, p]"
  using assms by (auto simp: bcast_def)

lemma rupture_cells_ok:
  assumes lens: "2 \<le> length dist_bins" "2 \<le> length lon_bins" "2 \<le> length lat_bins"
  shows "\<exists>lons_idx.
      digitize_lons ci gle (lons bdata) lon_bins = Inr lons_idx \<and>
      length lons_idx = length (lons bdata) \<and>
      rupture_cells ci gle bdata (dist_bins, lon_bins, lat_bins, eps_bins) =
        Inr (zip (map (\<lambda>d. fold_last_bin (int (length dist_bins) - 1) (int (digitize d dist_bins) - 1)) (dists bdata))
              (zip (map (fold_last_bin (int (length lon_bins) - 1)) lons_idx)
                   (map (\<lambda>l. fold_last_bin (int (length lat_bins) - 1) (int (digitize l lat_bins) - 1)) (lats bdata)))) \<and>
      (\<forall>c \<in> set (zip (map (\<lambda>d. fold_last_bin (int (length dist_bins) - 1) (int (digitize d dist_bins) - 1)) (dists bdata))
              (zip (map (fold_last_bin (int (length lon_bins) - 1)) lons_idx)
                   (map (\<lambda>l. fold_last_bin (int (length lat_bins) - 1) (int (digitize l lat_bins) - 1)) (lats bdata)))).
         - 1 \<le> fst c \<and> fst c < int (length dist_bins - 1) \<and>
         - 1 \<le> fst (snd c) \<and> fst (snd c) < int (length lon_bins - 1) \<and>
         - 1 \<le> snd (snd c) \<and> snd (snd c) < int (length lat_bins - 1))"
proof -
  from digitize_lons_range[OF lens(2), of ci gle "lons bdata"] obtain lons_idx where
    l: "digitize_lons ci gle (lons bdata) lon_bins = Inr lons_idx"
       "length lons_idx = length (lons bdata)"
       "\<forall>i \<in> set lons_idx. - 1 \<le> i \<and> i \<le> int (length lon_bins) - 1"
    by blast
  let ?ds = "map (\<lambda>d. fold_last_bin (int (length dist_bins) - 1) (int (digitize d dist_bins) - 1)) (dists bdata)"
  let ?ls = "map (fold_last_bin (int (length lon_bins) - 1)) lons_idx"
  let ?ts = "map (\<lambda>l. fold_last_bin (int (length lat_bins) - 1) (int (digitize l lat_bins) - 1)) (lats bdata)"
  have eq: "rupture_cells ci gle bdata (dist_bins, lon_bins, lat_bins, eps_bins) = Inr (zip ?ds (zip ?ls ?ts))"
    using l(1) by (simp add: rupture_cells_def Let_def comp_def)
  have d: "- 1 \<le> a \<and> a < int (length dist_bins - 1)" if "a \<in> set ?ds" for a
    using that digitize_index_range[OF lens(1)] by auto
  have t: "- 1 \<le> a \<and> a < int (length lat_bins - 1)" if "a \<in> set ?ts" for a
    using that digitize_index_range[OF lens(3)] by auto
  have o: "- 1 \<le> a \<and> a < int (length lon_bins - 1)" if "a \<in> set ?ls" for a
  proof -
    from that obtain i where i: "i \<in> set lons_idx" "a = fold_last_bin (int (length lon_bins) - 1) i"
      by auto
    have "- 1 \<le> i" "i \<le> int (length lon_bins) - 1" using l(3) i(1) by auto
    then show ?thesis
      using fold_last_bin_range[of i "int (length lon_bins) - 1"] lens(2) i(2) by auto
  qed
  have "- 1 \<le> fst c \<and> fst c < int (length dist_bins - 1) \<and>
         - 1 \<le> fst (snd c) \<and> fst (snd c) < int (length lon_bins - 1) \<and>
         - 1 \<le> snd (snd c) \<and> snd (snd c) < int (length lat_bins - 1)"
    if "c \<in> set (zip ?ds (zip ?ls ?ts))" for c
  proof -
    obtain a b e where c: "c = (a, b, e)" by (cases c) auto
    have "a \<in> set ?ds" using that unfolding c by (rule set_zip_leftD)
    moreover have be: "(b, e) \<in> set (zip ?ls ?ts)" using that unfolding c by (rule set_zip_rightD)
    moreover have "b \<in> set ?ls" using be by (rule set_zip_leftD)
    moreover have "e \<in> set ?ts" using be by (rule set_zip_rightD)
    ultimately show ?thesis using d o t unfolding c by simp
  qed
  then show ?thesis using l(1,2) eq by blast
qed


lemma build_disagg_matrix_cells:
  assumes shp: "shp (pnes bdata) = [U, E, M, P]"
    and lens: "2 \<le> length dist_bins" "2 \<le> length lon_bins" "2 \<le> length lat_bins"
    and eps: "length eps_bins = E + 1"
    and s: "s = [length dist_bins - 1, length lon_bins - 1, length lat_bins - 1, E, M, P]"
  shows "\<exists>cells mat.
      rupture_cells ci gle bdata (dist_bins, lon_bins, lat_bins, eps_bins) = Inr cells \<and>
      (\<forall>c \<in> set cells. norm_cell s c \<noteq> None) \<and>
      build_disagg_matrix ci gle bdata (dist_bins, lon_bins, lat_bins, eps_bins) = Inr mat \<and>
      shp mat = s \<and>
      (\<forall>i j k e m p. e < E \<longrightarrow> m < M \<longrightarrow> p < P \<longrightarrow>
         elt mat [i, j, k, e, m, p] =
           1 - prod_list (map (\<lambda>u. elt (pnes bdata) [u, e, m, p])
                 (filter (\<lambda>u. norm_cell s (cells ! u) = Some (i, j, k))
                         [0..<min (length cells) U])))"
proof -
  let ?bins = "(dist_bins, lon_bins, lat_bins, eps_bins)"
  from rupture_cells_ok[OF lens, of ci gle bdata eps_bins] obtain cells where
    cells: "rupture_cells ci gle bdata ?bins = Inr cells"
    and rng: "\<forall>c \<in> set cells.
         - 1 \<le> fst c \<and> fst c < int (length dist_bins - 1) \<and>
         - 1 \<le> fst (snd c) \<and> fst (snd c) < int (length lon_bins - 1) \<and>
         - 1 \<le> snd (snd c) \<and> snd (snd c) < int (length lat_bins - 1)"
    by blast
  have pos: "0 < length dist_bins - 1" "0 < length lon_bins - 1" "0 < length lat_bins - 1"
    using lens by auto
  have norm: "norm_cell s c \<noteq> None" if "c \<in> set cells" for c
  proof -
    obtain a b d where c: "c = (a, b, d)" by (cases c) auto
    show ?thesis using rng that pos unfolding c s
      by (subst norm_cell_in_range) auto
  qed
  let ?pairs = "zip cells (map (nd_row (pnes bdata)) [0..<U])"
  have ones: "shp (np_ones s) = s" by (simp add: np_ones_def)
  have pre: "norm_cell (shp (np_ones s)) idx \<noteq> None \<and>
             broadcastable (shp pne) (drop 3 (shp (np_ones s)))"
    if "(idx, pne) \<in> set ?pairs" for idx pne
  proof -
    have "idx \<in> set cells" using that by (rule set_zip_leftD)
    then have n: "norm_cell s idx \<noteq> None" by (rule norm)
    have "pne \<in> set (map (nd_row (pnes bdata)) [0..<U])" using that by (rule set_zip_rightD)
    then have e: "shp pne = [E, M, P]" by (auto simp: nd_row_def shp)
    have b: "broadcastable [E, M, P] (drop 3 s)" by (simp add: s broadcastable_def)
    show ?thesis unfolding ones e using n b by simp
  qed
  from fold_err_imul_cell[of ?pairs "np_ones s", OF pre] obtain mat' where
    m': "fold_err imul_cell ?pairs (np_ones s) = Inr mat'" "shp mat' = s"
      "\<And>i j k rest. elt mat' (i # j # k # rest) =
          elt (np_ones s) (i # j # k # rest) *
          prod_list (map (\<lambda>(idx, pne). elt pne (bcast (shp pne) rest))
             (filter (\<lambda>(idx, pne). norm_cell s idx = Some (i, j, k)) ?pairs))"
    unfolding ones by blast
  let ?mat = "mat'\<lparr>elt := (\<lambda>ix. 1 - elt mat' ix)\<rparr>"
  have dims: "\<not> (int (length dist_bins) - 1 < 0 \<or> int (length lon_bins) - 1 < 0 \<or>
       int (length lat_bins) - 1 < 0 \<or> int (length eps_bins) - 1 < 0)"
    using lens eps by auto
  have s': "[nat (int (length dist_bins) - 1), nat (int (length lon_bins) - 1),
        nat (int (length lat_bins) - 1), nat (int (length eps_bins) - 1), M, P] = s"
    using lens eps unfolding s by (simp add: nat_diff_distrib')
  have build: "build_disagg_matrix ci gle bdata ?bins = Inr ?mat"
    unfolding build_disagg_matrix_def Let_def using dims
    by (simp add: cells shp s' m'(1))
  have cell: "elt ?mat [i, j, k, e, m, p] =
           1 - prod_list (map (\<lambda>u. elt (pnes bdata) [u, e, m, p])
                 (filter (\<lambda>u. norm_cell s (cells ! u) = Some (i, j, k))
                         [0..<min (length cells) U]))"
    if "e < E" "m < M" "p < P" for i j k e m p
  proof -
    have "prod_list (map (\<lambda>(idx, pne). elt pne (bcast (shp pne) [e, m, p]))
             (filter (\<lambda>(idx, pne). norm_cell s idx = Some (i, j, k)) ?pairs))
        = prod_list (map (\<lambda>u. elt (pnes bdata) [u, e, m, p])
                 (filter (\<lambda>u. norm_cell s (cells ! u) = Some (i, j, k))
                         [0..<min (length cells) U]))"
      unfolding zip_map_upt filter_map map_map comp_def
      by (simp add: nd_row_def shp bcast_id[OF that])
    then show ?thesis using m'(3)[of i j k "[e, m, p]"] by (simp add: np_ones_def)
  qed
  show ?thesis
    using cells norm build m'(2) cell by (intro exI[of _ cells] exI[of _ ?mat]) simp
qed

lemma digitize_last:
  assumes "sorted bins" "bins \<noteq> []"
  shows "digitize (last bins) bins = length bins"
proof -
  have "\<forall>b \<in> set bins. b \<le> last bins" using assms sorted_le_last by auto
  then have "takeWhile (\<lambda>b. b \<le> last bins) bins = bins"
    unfolding takeWhile_eq_all_conv .
  then show ?thesis unfolding digitize_def by (rule arg_cong)
qed



lemma rupture_cells_nth:
  assumes lens: "2 \<le> length dist_bins" "2 \<le> length lon_bins" "2 \<le> length lat_bins"
    and cells: "rupture_cells ci gle bdata (dist_bins, lon_bins, lat_bins, eps_bins) = Inr cells"
  shows "length cells = min (length (dists bdata)) (min (length (lons bdata)) (length (lats bdata)))"
    and "u < length cells \<Longrightarrow>
         fst (cells ! u) = fold_last_bin (int (length dist_bins) - 1) (int (digitize (dists bdata ! u) dist_bins) - 1)"
    and "u < length cells \<Longrightarrow>
         snd (snd (cells ! u)) = fold_last_bin (int (length lat_bins) - 1) (int (digitize (lats bdata ! u) lat_bins) - 1)"
proof -
  from rupture_cells_ok[OF lens, of ci gle bdata eps_bins] obtain lons_idx where
    l: "length lons_idx = length (lons bdata)"
    and eq: "rupture_cells ci gle bdata (dist_bins, lon_bins, lat_bins, eps_bins) =
        Inr (zip (map (\<lambda>d. fold_last_bin (int (length dist_bins) - 1) (int (digitize d dist_bins) - 1)) (dists bdata))
              (zip (map (fold_last_bin (int (length lon_bins) - 1)) lons_idx)
                   (map (\<lambda>l. fold_last_bin (int (length lat_bins) - 1) (int (digitize l lat_bins) - 1)) (lats bdata))))"
    by blast
  have c: "cells = zip (map (\<lambda>d. fold_last_bin (int (length dist_bins) - 1) (int (digitize d dist_bins) - 1)) (dists bdata))
              (zip (map (fold_last_bin (int (length lon_bins) - 1)) lons_idx)
                   (map (\<lambda>l. fold_last_bin (int (length lat_bins) - 1) (int (digitize l lat_bins) - 1)) (lats bdata)))"
    using cells eq by simp
  show "length cells = min (length (dists bdata)) (min (length (lons bdata)) (length (lats bdata)))"
    unfolding c using l by simp
  show "fst (cells ! u) = fold_last_bin (int (length dist_bins) - 1) (int (digitize (dists bdata ! u) dist_bins) - 1)"
    if "u < length cells"
    using that unfolding c by simp
  show "snd (snd (cells ! u)) = fold_last_bin (int (length lat_bins) - 1) (int (digitize (lats bdata ! u) lat_bins) - 1)"
    if "u < length cells"
    using that unfolding c by simp
qed


text \<open>
  Claim C3.  For a \<^verbatim>\<open>BinData\<close> whose array of probabilities of no exceedance has the
  shape \<open>(U, E, M, P)\<close> and for arrays of at least two sorted edges,
  \<^verbatim>\<open>_build_disagg_matrix\<close> returns a matrix: every cell is 1 minus the product of the
  entries of the ruptures whose index triple addresses that cell, the product that the
  loop accumulates from a matrix of ones; a cell that no rupture addresses is exactly 0;
  and a distance or a latitude equal to the last edge is given the index of the last bin.
\<close>

theorem build_disagg_matrix_accumulates:
  assumes shp: "shp (pnes bdata) = [U, E, M, P]"
    and lens: "2 \<le> length dist_bins" "2 \<le> length lon_bins" "2 \<le> length lat_bins"
    and eps: "length eps_bins = E + 1"
    and srt: "sorted dist_bins" "sorted lat_bins"
    and s: "s = [length dist_bins - 1, length lon_bins - 1, length lat_bins - 1, E, M, P]"
    and emp: "e < E" "m < M" "p < P"
  shows "\<exists>cells mat.
      rupture_cells ci gle bdata (dist_bins, lon_bins, lat_bins, eps_bins) = Inr cells \<and>
      build_disagg_matrix ci gle bdata (dist_bins, lon_bins, lat_bins, eps_bins) = Inr mat \<and>
      shp mat = s \<and>
      elt mat [i, j, k, e, m, p] =
        1 - prod_list (map (\<lambda>u. elt (pnes bdata) [u, e, m, p])
              (filter (\<lambda>u. norm_cell s (cells ! u) = Some (i, j, k))
                      [0..<min (length cells) U])) \<and>
      ((\<forall>u < min (length cells) U. norm_cell s (cells ! u) \<noteq> Some (i, j, k)) \<longrightarrow>
         elt mat [i, j, k, e, m, p] = 0) \<and>
      (\<forall>u < length cells. dists bdata ! u = last dist_bins \<longrightarrow>
         fst (cells ! u) = int (length dist_bins) - 2 \<and>
         (\<exists>j' k'. norm_cell s (cells ! u) = Some (length dist_bins - 2, j', k'))) \<and>
      (\<forall>u < length cells. lats bdata ! u = last lat_bins \<longrightarrow>
         snd (snd (cells ! u)) = int (length lat_bins) - 2 \<and>
         (\<exists>i' j'. norm_cell s (cells ! u) = Some (i', j', length lat_bins - 2)))"
proof -
  let ?bins = "(dist_bins, lon_bins, lat_bins, eps_bins)"
  from build_disagg_matrix_cells[OF shp lens eps s, of ci gle] obtain cells mat where
    cells: "rupture_cells ci gle bdata ?bins = Inr cells"
    and norm: "\<forall>c \<in> set cells. norm_cell s c \<noteq> None"
    and build: "build_disagg_matrix ci gle bdata ?bins = Inr mat"
    and shpm: "shp mat = s"
    and cell: "\<And>i j k e m p. e < E \<Longrightarrow> m < M \<Longrightarrow> p < P \<Longrightarrow>
         elt mat [i, j, k, e, m, p] =
           1 - prod_list (map (\<lambda>u. elt (pnes bdata) [u, e, m, p])
                 (filter (\<lambda>u. norm_cell s (cells ! u) = Some (i, j, k))
                         [0..<min (length cells) U]))"
    by blast
  note nth = rupture_cells_nth[OF lens cells]
  from rupture_cells_ok[OF lens, of ci gle bdata eps_bins] cells have rng:
    "\<forall>c \<in> set cells.
         - 1 \<le> fst c \<and> fst c < int (length dist_bins - 1) \<and>
         - 1 \<le> fst (snd c) \<and> fst (snd c) < int (length lon_bins - 1) \<and>
         - 1 \<le> snd (snd c) \<and> snd (snd c) < int (length lat_bins - 1)"
    by auto
  have pos: "0 < length dist_bins - 1" "0 < length lon_bins - 1" "0 < length lat_bins - 1"
    using lens by auto
  have nc: "norm_cell s (cells ! u) =
        Some (if fst (cells ! u) = - 1 then length dist_bins - 1 - 1 else nat (fst (cells ! u)),
              if fst (snd (cells ! u)) = - 1 then length lon_bins - 1 - 1 else nat (fst (snd (cells ! u))),
              if snd (snd (cells ! u)) = - 1 then length lat_bins - 1 - 1 else nat (snd (snd (cells ! u))))"
    if "u < length cells" for u
  proof -
    have "cells ! u \<in> set cells" using that by simp
    then show ?thesis
      using rng pos norm_cell_in_range[of "fst (cells ! u)" "length dist_bins - 1"
          "fst (snd (cells ! u))" "length lon_bins - 1" "snd (snd (cells ! u))" "length lat_bins - 1"
          "[E, M, P]"]
      unfolding s by simp
  qed
  have empty: "elt mat [i, j, k, e, m, p] = 0"
    if "\<forall>u < min (length cells) U. norm_cell s (cells ! u) \<noteq> Some (i, j, k)"
  proof -
    have "filter (\<lambda>u. norm_cell s (cells ! u) = Some (i, j, k)) [0..<min (length cells) U] = []"
      using that by (auto simp: filter_empty_conv)
    then show ?thesis using cell[OF emp, of i j k] by simp
  qed
  have dist: "fst (cells ! u) = int (length dist_bins) - 2 \<and>
         (\<exists>j' k'. norm_cell s (cells ! u) = Some (length dist_bins - 2, j', k'))"
    if u: "u < length cells" and d: "dists bdata ! u = last dist_bins" for u
  proof -
    have ne: "dist_bins \<noteq> []" using lens by auto
    have f: "fst (cells ! u) = int (length dist_bins) - 2"
      using nth(2)[OF u] digitize_last[OF srt(1) ne] by (simp add: d fold_last_bin_def)
    have "fst (cells ! u) \<noteq> - 1" using f lens by simp
    moreover have "nat (fst (cells ! u)) = length dist_bins - 2" using f lens by simp
    ultimately show ?thesis using nc[OF u] f by simp
  qed
  have lat: "snd (snd (cells ! u)) = int (length lat_bins) - 2 \<and>
         (\<exists>i' j'. norm_cell s (cells ! u) = Some (i', j', length lat_bins - 2))"
    if u: "u < length cells" and d: "lats bdata ! u = last lat_bins" for u
  proof -
    have ne: "lat_bins \<noteq> []" using lens by auto
    have f: "snd (snd (cells ! u)) = int (length lat_bins) - 2"
      using nth(3)[OF u] digitize_last[OF srt(2) ne] by (simp add: d fold_last_bin_def)
    have "snd (snd (cells ! u)) \<noteq> - 1" using f lens by simp
    moreover have "nat (snd (snd (cells ! u))) = length lat_bins - 2" using f lens by simp
    ultimately show ?thesis using nc[OF u] f by simp
  qed
  show ?thesis
    using cells build shpm cell[OF emp, of i j k] empty dist lat
    by (intro exI[of _ cells] exI[of _ mat] conjI allI impI) (assumption | blast)+
qed


text \<open>
  Claim C3 at three ruptures, two of them in the same cell, one of these with its distance
  and its latitude on the last edges.
\<close>

theorem build_disagg_matrix_accumulates_witness:
  "sorted [0, 10, 20 :: real] \<and> sorted [0, 1, 2 :: real] \<and>
   rupture_cells (\<lambda>a b. False) (\<lambda>a b. b - a)
      \<lparr>dists = [5, 20, 15], lons = [1/2, 1/2, 1/2], lats = [1/2, 2, 2],
       pnes = \<lparr>shp = [3, 1, 1, 1], elt = (\<lambda>ix. [1/2, 1/3, 1/5] ! hd ix)\<rparr>\<rparr>
      ([0, 10, 20], [0, 1], [0, 1, 2], [-3, 3]) = Inr [(0, 0, 0), (1, 0, 1), (1, 0, 1)] \<and>
   elt (projr (build_disagg_matrix (\<lambda>a b. False) (\<lambda>a b. b - a)
      \<lparr>dists = [5, 20, 15], lons = [1/2, 1/2, 1/2], lats = [1/2, 2, 2],
       pnes = \<lparr>shp = [3, 1, 1, 1], elt = (\<lambda>ix. [1/2, 1/3, 1/5] ! hd ix)\<rparr>\<rparr>
      ([0, 10, 20], [0, 1], [0, 1, 2], [-3, 3]))) [1, 0, 1, 0, 0, 0] = 1 - 1/3 * 1/5 \<and>
   elt (projr (build_disagg_matrix (\<lambda>a b. False) (\<lambda>a b. b - a)
      \<lparr>dists = [5, 20, 15], lons = [1/2, 1/2, 1/2], lats = [1/2, 2, 2],
       pnes = \<lparr>shp = [3, 1, 1, 1], elt = (\<lambda>ix. [1/2, 1/3, 1/5] ! hd ix)\<rparr>\<rparr>
      ([0, 10, 20], [0, 1], [0, 1, 2], [-3, 3]))) [0, 0, 1, 0, 0, 0] = 0"
proof -
  let ?bd = "\<lparr>dists = [5, 20, 15], lons = [1/2, 1/2, 1/2], lats = [1/2, 2, 2],
       pnes = \<lparr>shp = [3, 1, 1, 1], elt = (\<lambda>ix. [1/2, 1/3, 1/5] ! hd ix)\<rparr>\<rparr>"
  let ?bins = "([0, 10, 20], [0, 1], [0, 1, 2], [-3, 3]) :: real list \<times> real list \<times> real list \<times> real list"
  let ?ci = "\<lambda>(a::real) (b::real). False"
  let ?gle = "\<lambda>(a::real) (b::real). b - a"
  let ?s = "[2, 1, 2, 1, 1, 1] :: nat list"
  have rc: "rupture_cells ?ci ?gle ?bd ?bins = Inr [(0, 0, 0), (1, 0, 1), (1, 0, 1)]"
    by (simp add: rupture_cells_def digitize_lons_def digitize_def fold_last_bin_def)
  have up: "[0..<3] = [0, 1, 2]" by (simp add: upt_rec)
  have hyps: "shp (pnes ?bd) = [3, 1, 1, 1]" "2 \<le> length [0, 10, 20 :: real]"
      "2 \<le> length [0, 1 :: real]" "2 \<le> length [0, 1, 2 :: real]"
      "length [-3, 3 :: real] = 1 + 1" "sorted [0, 10, 20 :: real]" "sorted [0, 1, 2 :: real]"
      "?s = [length [0, 10, 20 :: real] - 1, length [0, 1 :: real] - 1,
             length [0, 1, 2 :: real] - 1, 1, 1, 1]"
      "(0::nat) < 1"
    by simp_all
  have a: "elt (projr (build_disagg_matrix ?ci ?gle ?bd ?bins)) [1, 0, 1, 0, 0, 0] = 1 - 1/3 * 1/5"
  proof -
    from build_disagg_matrix_accumulates[OF hyps(1-8) hyps(9) hyps(9) hyps(9), of ?ci ?gle 1 0 1]
    obtain cells mat where
      c: "rupture_cells ?ci ?gle ?bd ?bins = Inr cells"
      and m: "build_disagg_matrix ?ci ?gle ?bd ?bins = Inr mat"
      and v: "elt mat [1, 0, 1, 0, 0, 0] =
        1 - prod_list (map (\<lambda>u. elt (pnes ?bd) [u, 0, 0, 0])
              (filter (\<lambda>u. norm_cell ?s (cells ! u) = Some (1, 0, 1))
                      [0..<min (length cells) 3]))"
      by blast
    have cs: "cells = [(0, 0, 0), (1, 0, 1), (1, 0, 1)]" using c rc by simp
    show ?thesis unfolding m using v unfolding cs by (simp add: norm_cell_def py_index_def up)
  qed
  have b: "elt (projr (build_disagg_matrix ?ci ?gle ?bd ?bins)) [0, 0, 1, 0, 0, 0] = 0"
  proof -
    from build_disagg_matrix_accumulates[OF hyps(1-8) hyps(9) hyps(9) hyps(9), of ?ci ?gle 0 0 1]
    obtain cells mat where
      c: "rupture_cells ?ci ?gle ?bd ?bins = Inr cells"
      and m: "build_disagg_matrix ?ci ?gle ?bd ?bins = Inr mat"
      and v: "elt mat [0, 0, 1, 0, 0, 0] =
        1 - prod_list (map (\<lambda>u. elt (pnes ?bd) [u, 0, 0, 0])
              (filter (\<lambda>u. norm_cell ?s (cells ! u) = Some (0, 0, 1))
                      [0..<min (length cells) 3]))"
      by blast
    have cs: "cells = [(0, 0, 0), (1, 0, 1), (1, 0, 1)]" using c rc by simp
    show ?thesis unfolding m using v unfolding cs by (simp add: norm_cell_def py_index_def up)
  qed
  show ?thesis using rc a b by simp
qed




section \<open>Properties of the occurrence model\<close>

lemma fold_imul_col:
  assumes "distinct keys"
  shows "elt (fold (\<lambda>k. imul_col k (F k)) keys arr) [u, e, m, p] =
           elt arr [u, e, m, p] * (if (e, m, p) \<in> set keys then F (e, m, p) u else 1) \<and>
         shp (fold (\<lambda>k. imul_col k (F k)) keys arr) = shp arr"
  using assms
proof (induction keys arbitrary: arr)
  case Nil
  show ?case by simp
next
  case (Cons k keys)
  obtain e' m' p' where k: "k = (e', m', p')" by (cases k) auto
  have d: "distinct keys" "k \<notin> set keys" using Cons.prems by auto
  show ?case
    using Cons.IH[OF d(1), of "imul_col k (F k) arr"] d(2)
    by (auto simp: k imul_col_def)
qed

lemma fold_imul_row:
  "elt (fold (\<lambda>(u, r). imul_row u (G u r)) (enumerate n xs) arr) (u # rest) =
     elt arr (u # rest) *
     (if n \<le> u \<and> u < n + length xs then elt (G u (xs ! (u - n))) rest else 1) \<and>
   shp (fold (\<lambda>(u, r). imul_row u (G u r)) (enumerate n xs) arr) = shp arr"
proof (induction xs arbitrary: n arr)
  case Nil
  show ?case by simp
next
  case (Cons x xs)
  show ?case
    using Cons.IH[of "Suc n" "imul_row n (G n x) arr"]
    by (auto simp: imul_row_def nth_Cons' Suc_diff_le)
qed

lemma multiply_pnes_poisson:
  assumes no: "\<forall>r \<in> set rups. probs_occur r = []"
    and r: "e < E" "m < M" "p < P"
  shows "elt (multiply_pnes gp rups poes ts E M P) [u, e, m, p] =
           exp (- occurrence_rate (rups ! u) * elt poes [u, e, m, p] * ts)"
proof -
  have ex: "\<not> list_ex (\<lambda>r. length (probs_occur r) \<noteq> 0) rups"
    using no by (simp add: list_ex_iff)
  have dist: "distinct (List.product [0..<E] (List.product [0..<M] [0..<P]))"
    by (simp add: distinct_product)
  have mem: "(e, m, p) \<in> set (List.product [0..<E] (List.product [0..<M] [0..<P]))"
    using r by simp
  show ?thesis
    unfolding multiply_pnes_def Let_def using ex
    by (simp add: conjunct1[OF fold_imul_col[OF dist]] mem np_ones_def del: set_product)
qed

lemma multiply_pnes_tom:
  assumes any: "\<exists>r \<in> set rups. probs_occur r \<noteq> []"
    and u: "u < length rups"
  shows "elt (multiply_pnes gp rups poes ts E M P) [u, e, m, p] =
           elt (gp (occurrence_rate (rups ! u)) (probs_occur (rups ! u)) (nd_row poes u) ts) [e, m, p]"
proof -
  have ex: "list_ex (\<lambda>r. length (probs_occur r) \<noteq> 0) rups"
    using any by (simp add: list_ex_iff)
  show ?thesis
    unfolding multiply_pnes_def Let_def using ex u
    by (simp add: conjunct1[OF fold_imul_row[of
          "\<lambda>u r. gp (occurrence_rate r) (probs_occur r) (nd_row poes u) ts"]] np_ones_def)
qed


text \<open>
  Claim C2.  In the block of \<^verbatim>\<open>_disaggregate\<close> that multiplies the probabilities of no
  exceedance: when every rupture of the batch has an empty \<^verbatim>\<open>probs_occur\<close>, the
  cell of rupture \<open>u\<close>, epsilon bin \<open>e\<close>, intensity type \<open>m\<close> and level \<open>p\<close> is
  \<open>exp(-occurrence_rate * poe * time_span)\<close>; when some rupture of the batch has a
  non-empty \<^verbatim>\<open>probs_occur\<close>, the cell of every rupture is the entry of the array that
  \<^verbatim>\<open>get_pnes\<close> returns for that rupture.
\<close>

theorem multiply_pnes_branches:
  assumes "u < length rups" and "e < E" and "m < M" and "p < P"
  shows "((\<forall>r \<in> set rups. probs_occur r = []) \<longrightarrow>
            elt (multiply_pnes gp rups poes ts E M P) [u, e, m, p] =
              exp (- occurrence_rate (rups ! u) * elt poes [u, e, m, p] * ts)) \<and>
         ((\<exists>r \<in> set rups. probs_occur r \<noteq> []) \<longrightarrow>
            elt (multiply_pnes gp rups poes ts E M P) [u, e, m, p] =
              elt (gp (occurrence_rate (rups ! u)) (probs_occur (rups ! u)) (nd_row poes u) ts)
                  [e, m, p])"
  using multiply_pnes_poisson[OF _ assms(2-4), of rups gp poes ts u]
    multiply_pnes_tom[OF _ assms(1), of gp poes ts E M P e m p]
  by blast


text \<open>
  Claim C2 at one Poissonian rupture, and at one rupture with the occurrence probabilities
  0.9 and 0.1.
\<close>

theorem multiply_pnes_branches_witness:
  "elt (multiply_pnes (\<lambda>rate probs a tspan. a\<lparr>elt := (\<lambda>ix. probs ! 0 + probs ! 1 * (1 - elt a ix))\<rparr>)
          [\<lparr>mag = 6, rrup = 10, clon = 0, clat = 0, occurrence_rate = 1/100, probs_occur = [],
            src_id = 0, sids = 0\<rparr>]
          \<lparr>shp = [1, 1, 1, 1], elt = (\<lambda>ix. 1/5)\<rparr> 50 1 1 1) [0, 0, 0, 0] = exp (- (1/10)) \<and>
   elt (multiply_pnes (\<lambda>rate probs a tspan. a\<lparr>elt := (\<lambda>ix. probs ! 0 + probs ! 1 * (1 - elt a ix))\<rparr>)
          [\<lparr>mag = 6, rrup = 10, clon = 0, clat = 0, occurrence_rate = 1/100, probs_occur = [9/10, 1/10],
            src_id = 0, sids = 0\<rparr>]
          \<lparr>shp = [1, 1, 1, 1], elt = (\<lambda>ix. 1/5)\<rparr> 50 1 1 1) [0, 0, 0, 0] = 49/50"
  using multiply_pnes_branches[of 0
      "[\<lparr>mag = 6, rrup = 10, clon = 0, clat = 0, occurrence_rate = 1/100, probs_occur = [],
            src_id = 0, sids = 0\<rparr>]" 0 1 0 1 0 1
      "\<lambda>rate probs a tspan. a\<lparr>elt := (\<lambda>ix. probs ! 0 + probs ! 1 * (1 - elt a ix))\<rparr>"
      "\<lparr>shp = [1, 1, 1, 1], elt = (\<lambda>ix. 1/5)\<rparr>" 50]
    multiply_pnes_branches[of 0
      "[\<lparr>mag = 6, rrup = 10, clon = 0, clat = 0, occurrence_rate = 1/100, probs_occur = [9/10, 1/10],
            src_id = 0, sids = 0\<rparr>]" 0 1 0 1 0 1
      "\<lambda>rate probs a tspan. a\<lparr>elt := (\<lambda>ix. probs ! 0 + probs ! 1 * (1 - elt a ix))\<rparr>"
      "\<lparr>shp = [1, 1, 1, 1], elt = (\<lambda>ix. 1/5)\<rparr>" 50]
  by (simp add: nd_row_def)

section \<open>Properties of the exceedance kernel\<close>




lemma searchsorted_le_length: "searchsorted a v \<le> length a"
  by (simp add: searchsorted_def length_takeWhile_le)










section \<open>Properties of the orchestrator\<close>

lemma demo_constructed_eq:
  "Disaggregator_init demo_collaborators (Contexts [demo_ruptures]) (OneSite None) demo_cmaker
     ([5, 6, 7], [0, 10], [0 \<mapsto> [0, 1]], [0 \<mapsto> [0, 1]], [-3, 3]) None = Inr demo_constructed"
  by (simp add: Disaggregator_init_def site_collection_def with_imts_def contexts_of_def
      demo_ruptures_def demo_constructed_def demo_cmaker_def fullmagi_of_def searchsorted_def
      np_zeros_def)

lemma demo_initialised_eq:
  "init demo_collaborators demo_constructed 0
     (Some \<lparr>mutex_src_id = [0, 1], mutex_weight = [1/2, 1/2], mutex_start = [], mutex_stop = []\<rparr>)
   = Inr demo_initialised"
  by (simp add: init_def demo_constructed_def demo_initialised_def demo_ruptures_def
      demo_collaborators_def Let_def)







section \<open>Properties of the weighted average over mutually exclusive sources\<close>


lemma map_err_Inr_I:
  "length ys = length xs \<Longrightarrow> (\<And>i. i < length xs \<Longrightarrow> f (xs ! i) = Inr (ys ! i)) \<Longrightarrow>
     map_err f xs = Inr ys"
proof (induction xs arbitrary: ys)
  case Nil
  then show ?case by simp
next
  case (Cons x xs)
  obtain y ys' where ys: "ys = y # ys'" using Cons.prems(1) by (cases ys) auto
  have "f x = Inr y" using Cons.prems(2)[of 0] ys by simp
  moreover have "map_err f xs = Inr ys'"
  proof (rule Cons.IH)
    show "length ys' = length xs" using Cons.prems(1) ys by simp
    show "f (xs ! i) = Inr (ys' ! i)" if "i < length xs" for i
      using Cons.prems(2)[of "Suc i"] that ys by simp
  qed
  ultimately show ?case using ys by simp
qed


















section \<open>The matrices of \<^verbatim>\<open>disagg6D\<close>\<close>






section \<open>The range of the cells\<close>







end
